theory Spec2Isabelle
  imports Main
begin

text \<open>
  A model of \<open>run\<close> of \<open>src/index.js\<close> and of the error classes of \<open>src/errors\<close>.
  An invocation is modelled by the sequence of calls it makes on its collaborators (the
  lock client, the task, the timer) and by the fate of the promise it returns. The
  collaborators are parameters: what each lock, extend and unlock call answers, and after
  how many interval callbacks the task settles. Diagnostic output (\<open>debug\<close>) is left out.
\<close>

section \<open>Values, errors and settled promises\<close>

text \<open>
  The JavaScript values that \<open>run\<close> can receive as \<open>lockKey\<close>. Numbers are modelled
  as integers (milliseconds and counts); strings as character lists.
\<close>

datatype js_value =
    JUndefined
  | JString string
  | JNumber int
  | JObject
  | JArray "js_value list"

text \<open>\<open>_.isArray\<close> and \<open>_.isString\<close> of lodash.\<close>

fun isArray :: "js_value \<Rightarrow> bool" where
  "isArray (JArray xs) = True"
| "isArray v = False"

fun isString :: "js_value \<Rightarrow> bool" where
  "isString (JString s) = True"
| "isString v = False"

text \<open>Decimal rendering of a number inside a template string.\<close>

fun string_of_nat :: "nat \<Rightarrow> string" where
  "string_of_nat n =
     (if n < 10 then [char_of (48 + n)]
      else string_of_nat (n div 10) @ [char_of (48 + n mod 10)])"

definition string_of_int :: "int \<Rightarrow> string" where
  "string_of_int i = (if i < 0 then CHR ''-'' # string_of_nat (nat (- i)) else string_of_nat (nat i))"

text \<open>\<open>Array.prototype.join\<close> with the default separator.\<close>

fun join :: "string list \<Rightarrow> string" where
  "join [] = []"
| "join [s] = s"
| "join (s # t # ss) = s @ '','' @ join (t # ss)"

text \<open>
  String conversion of a value inside a template string. Inside an array,
  \<open>undefined\<close> elements are rendered as the empty string.
\<close>

fun to_string :: "js_value \<Rightarrow> string" where
  "to_string JUndefined = ''undefined''"
| "to_string (JString s) = s"
| "to_string (JNumber n) = string_of_int n"
| "to_string JObject = ''[object Object]''"
| "to_string (JArray xs) = join (map (\<lambda>x. if x = JUndefined then [] else to_string x) xs)"

text \<open>
  An error object: its \<open>name\<close>, \<open>message\<close> and \<open>stack\<close>, and the two fields that the
  constructors of \<open>src/errors\<close> assign (\<open>extendLockLimit\<close> of \<open>ExtendLockError\<close> and
  \<open>extra\<close> of \<open>UnlockError\<close>). \<open>None\<close> is JavaScript's \<open>undefined\<close>.
\<close>

datatype js_error =
  JsError (name: string) (message: "string option") (stack: "string option")
          (extendLockLimit: "int option") (extra: "js_error option")

text \<open>
  The three constructors. The first argument is the stack that
  \<open>Error.captureStackTrace\<close> records at the construction site; the others are the
  constructor's own parameters, \<open>None\<close> when the caller omits them.
\<close>

definition Error_new :: "string \<Rightarrow> string \<Rightarrow> js_error" where
  "Error_new captured msg = JsError ''Error'' (Some msg) (Some captured) None None"

definition ExtendLockError_new :: "string \<Rightarrow> string option \<Rightarrow> int option \<Rightarrow> js_error" where
  "ExtendLockError_new captured msg limit =
     JsError ''ExtendLockError'' msg (Some captured) limit None"

definition UnlockError_new :: "string \<Rightarrow> string option \<Rightarrow> js_error option \<Rightarrow> js_error" where
  "UnlockError_new captured msg ext =
     JsError ''UnlockError'' msg (Some captured) None ext"

text \<open>Assignment to the \<open>stack\<close> property of an error object.\<close>

fun set_stack :: "string option \<Rightarrow> js_error \<Rightarrow> js_error" where
  "set_stack st (JsError n m s l x) = JsError n m st l x"

text \<open>\<open>Error.prototype.toString\<close>, used when an error is interpolated into a template.\<close>

definition error_to_string :: "js_error \<Rightarrow> string" where
  "error_to_string e =
     (let n = name e; m = (case message e of None \<Rightarrow> [] | Some s \<Rightarrow> s)
      in if n = [] then m else if m = [] then n else n @ '': '' @ m)"

text \<open>The fate of a promise once it has settled.\<close>

datatype 'a settled = Fulfilled 'a | Rejected js_error | Cancelled

section \<open>Configuration and collaborators\<close>

text \<open>The configuration bound by \<open>initialize\<close>, with its defaults.\<close>

record config =
  minimumTtl :: int
  extendLockBufferOffset :: int
  maxExtendLockCount :: int

definition default_config :: config where
  "default_config = \<lparr> minimumTtl = 100, extendLockBufferOffset = 50, maxExtendLockCount = 20 \<rparr>"

type_synonym handle = nat

text \<open>
  The lock client and the runtime, as seen by one invocation:
  \<^item> \<open>lock k ttl\<close> is the fate of \<open>redlock.lock(k, ttl)\<close>: a handle or a \<open>LockError\<close>;
  \<^item> \<open>extend_h n h ttl\<close> is the fate of \<open>h.extend(ttl)\<close> issued by the \<open>n\<close>-th interval
    callback (\<open>None\<close>: it resolves);
  \<^item> \<open>unlock h\<close> is the fate of \<open>h.unlock()\<close> (\<open>None\<close>: it resolves);
  \<^item> \<open>captured\<close> is the stack that \<open>Error.captureStackTrace\<close> records.
\<close>

record env =
  lock :: "string \<Rightarrow> int \<Rightarrow> js_error + handle"
  extend_h :: "int \<Rightarrow> handle \<Rightarrow> int \<Rightarrow> js_error option"
  unlock :: "handle \<Rightarrow> js_error option"
  captured :: string

text \<open>
  The user function \<open>f\<close>: it throws when called, or returns something that settles after
  a number of interval callbacks have fired (0: before the first one), or returns a
  promise that stays pending until it is cancelled.
\<close>

datatype task =
    Throws js_error
  | Settles nat "js_error + js_value"
  | Pending

text \<open>What one invocation does to the outside world, in order.\<close>

datatype event =
    Acquire string int
  | Invoke
  | SetInterval int
  | Extend handle int
  | Cancel
  | ClearInterval
  | Unlock handle

section \<open>Bluebird.map\<close>

text \<open>
  \<open>Bluebird.map xs fn\<close> over operations that perform I/O: \<open>fn\<close> is called on every
  element (the calls run in parallel), and the result is the list of results, or the
  first failure. The calls are taken to settle in the order in which they were issued, so
  the first failure is that of the first failing element.
\<close>

fun bluebird_map :: "('a \<Rightarrow> js_error + 'b) \<Rightarrow> 'a list \<Rightarrow> js_error + 'b list" where
  "bluebird_map fn [] = Inr []"
| "bluebird_map fn (x # xs) =
     (case fn x of
        Inl e \<Rightarrow> Inl e
      | Inr y \<Rightarrow> (case bluebird_map fn xs of Inl e \<Rightarrow> Inl e | Inr ys \<Rightarrow> Inr (y # ys)))"

definition unit_result :: "js_error option \<Rightarrow> js_error + unit" where
  "unit_result r = (case r of None \<Rightarrow> Inr () | Some e \<Rightarrow> Inl e)"

section \<open>The extension scheduler\<close>

text \<open>
  The variables that the interval callback shares with the release phase:
  \<open>extendLockCounter\<close>, the \<open>message\<close> and \<open>stack\<close> of \<open>extendLockError\<close> (initially the
  empty object), and whether \<open>deferred\<close> has been cancelled.
\<close>

record sched =
  extendLockCounter :: int
  errMessage :: "string option"
  errStack :: "string option"
  cancelled :: bool

definition sched_init :: sched where
  "sched_init = \<lparr> extendLockCounter = 0, errMessage = None, errStack = None, cancelled = False \<rparr>"

definition cap_message :: "config \<Rightarrow> js_value \<Rightarrow> int \<Rightarrow> string" where
  "cap_message cfg lockKey counter =
     ''[Mutex '' @ to_string lockKey @
     ''] Promise is cancelled because it'' @ [CHR 0x27] @ ''s been extended for more than '' @
     string_of_int (maxExtendLockCount cfg) @ '' (extend count: '' @ string_of_int counter @ '')''"

text \<open>
  One run of the interval callback while \<open>deferred\<close> is pending: the events it causes and
  the variables afterwards. The counter is incremented first. Beyond the cap the callback
  cancels \<open>deferred\<close>, sets the message and returns. Otherwise it extends every lock, and
  on a failure cancels \<open>deferred\<close> and keeps the error. A callback is taken as one step:
  the answers to its extend calls arrive before the next callback and before the task
  settles.
\<close>

definition tick :: "config \<Rightarrow> env \<Rightarrow> js_value \<Rightarrow> int \<Rightarrow> handle list \<Rightarrow> sched \<Rightarrow> event list \<times> sched" where
  "tick cfg ev lockKey lockTtl locks s =
     (let counter = extendLockCounter s + 1 in
      if counter > maxExtendLockCount cfg then
        ([Cancel],
         s\<lparr> extendLockCounter := counter, cancelled := True,
            errMessage := Some (cap_message cfg lockKey counter) \<rparr>)
      else
        (case bluebird_map (\<lambda>l. unit_result (extend_h ev counter l lockTtl)) locks of
           Inr u \<Rightarrow> (map (\<lambda>l. Extend l lockTtl) locks, s\<lparr> extendLockCounter := counter \<rparr>)
         | Inl error \<Rightarrow>
             (map (\<lambda>l. Extend l lockTtl) locks @ [Cancel],
              s\<lparr> extendLockCounter := counter, cancelled := True,
                 errMessage := message error, errStack := stack error \<rparr>)))"

text \<open>Has the promise returned by \<open>f\<close> settled once \<open>n\<close> interval callbacks have fired?\<close>

fun settled_by :: "task \<Rightarrow> int \<Rightarrow> (js_error + js_value) option" where
  "settled_by (Settles k r) n = (if int k \<le> n then Some r else None)"
| "settled_by t n = None"

text \<open>
  The execution phase: the interval callback fires until \<open>deferred\<close> settles, by itself or
  by cancellation. Returns the events, the fate of \<open>deferred\<close> and the shared variables.
\<close>

function await_deferred ::
  "config \<Rightarrow> env \<Rightarrow> js_value \<Rightarrow> int \<Rightarrow> handle list \<Rightarrow> task \<Rightarrow> sched
     \<Rightarrow> event list \<times> js_value settled \<times> sched" where
  "await_deferred cfg ev lockKey lockTtl locks f s =
     (case settled_by f (extendLockCounter s) of
        Some (Inr v) \<Rightarrow> ([], Fulfilled v, s)
      | Some (Inl e) \<Rightarrow> ([], Rejected e, s)
      | None \<Rightarrow>
          (let (evs, s') = tick cfg ev lockKey lockTtl locks s in
           if cancelled s' then (evs, Cancelled, s')
           else (let (evs', d, s'') = await_deferred cfg ev lockKey lockTtl locks f s'
                 in (evs @ evs', d, s''))))"
  by pat_completeness auto
termination
  by (relation "measure (\<lambda>(cfg, ev, lockKey, lockTtl, locks, f, s).
                   nat (maxExtendLockCount cfg + 1 - extendLockCounter s))")
     (auto simp: tick_def Let_def split: if_splits sum.splits)

section \<open>run\<close>

definition unlock_message :: "js_value \<Rightarrow> int \<Rightarrow> js_error \<Rightarrow> string" where
  "unlock_message lockKey lockTtl error =
     ''[Mutex '' @ to_string lockKey @
     ''] Error when unlocking resource, no worries we'' @ [CHR 0x27] @ ''ve set a TTL '' @
     string_of_int lockTtl @ '' ms, it'' @ [CHR 0x27] @ ''ll unlock automatically. Error '' @
     error_to_string error"

text \<open>
  The promise chain built inside the \<open>finally\<close> handler, after \<open>clearInterval\<close>:
  unlock every handle, wrap a failure in an \<open>UnlockError\<close>, and otherwise throw an
  \<open>ExtendLockError\<close> when \<open>deferred\<close> was cancelled. \<open>None\<close>: the chain fulfils.
\<close>

definition release_chain ::
  "env \<Rightarrow> js_value \<Rightarrow> int \<Rightarrow> handle list \<Rightarrow> js_value settled \<Rightarrow> sched \<Rightarrow> js_error option" where
  "release_chain ev lockKey lockTtl locks deferred s =
     (case bluebird_map (\<lambda>l. unit_result (unlock ev l)) locks of
        Inl error \<Rightarrow>
          Some (set_stack (stack error)
                  (UnlockError_new (captured ev) (Some (unlock_message lockKey lockTtl error)) None))
      | Inr u \<Rightarrow>
          (if deferred = Cancelled then
             Some (set_stack
                     (case errStack s of
                        None \<Rightarrow> Some (captured ev)
                      | Some st \<Rightarrow> if st = [] then Some (captured ev) else Some st)
                     (ExtendLockError_new (captured ev) (errMessage s) None))
           else None))"

text \<open>
  \<open>deferred.finally(handler)\<close> for a handler that returns a promise: the result takes
  the fate of \<open>deferred\<close>, unless the handler's promise is rejected; then it is rejected
  with that reason, whether \<open>deferred\<close> was fulfilled, rejected or cancelled.
\<close>

definition bluebird_finally :: "'a settled \<Rightarrow> js_error option \<Rightarrow> 'a settled" where
  "bluebird_finally deferred handler = (case handler of Some e \<Rightarrow> Rejected e | None \<Rightarrow> deferred)"

text \<open>
  The callback that receives the acquired \<open>locks\<close>: call \<open>f\<close>, start the interval, and
  release in the \<open>finally\<close> handler once \<open>deferred\<close> has settled.
\<close>

definition with_locks ::
  "config \<Rightarrow> env \<Rightarrow> task \<Rightarrow> js_value \<Rightarrow> int \<Rightarrow> handle list \<Rightarrow> event list \<times> js_value settled" where
  "with_locks cfg ev f lockKey lockTtl locks =
     (case f of
        Throws e \<Rightarrow> ([Invoke], Rejected e)
      | _ \<Rightarrow>
          (let intervalTime = lockTtl - extendLockBufferOffset cfg;
               (ticks, deferred, s) = await_deferred cfg ev lockKey lockTtl locks f sched_init
           in ([Invoke, SetInterval intervalTime] @ ticks @ [ClearInterval] @ map Unlock locks,
               bluebird_finally deferred (release_chain ev lockKey lockTtl locks deferred s))))"

fun elements :: "js_value \<Rightarrow> js_value list" where
  "elements (JArray xs) = xs"
| "elements v = []"

definition ttl_message :: "config \<Rightarrow> string" where
  "ttl_message cfg = ''TTL must be more than '' @ string_of_int (minimumTtl cfg) @ '' ms!''"

definition key_message :: string where
  "key_message = ''Lock key must be a string or an array of string''"

text \<open>
  \<open>run(f, { lockKey, lockTtl = 1000 })\<close>: the events of the invocation and the fate of
  the promise it returns. Past the validation every key is a string, which \<open>to_string\<close>
  leaves as it is.
\<close>

definition run ::
  "config \<Rightarrow> env \<Rightarrow> task \<Rightarrow> js_value \<Rightarrow> int option \<Rightarrow> event list \<times> js_value settled" where
  "run cfg ev f lockKey ttl =
     (let lockTtl = (case ttl of None \<Rightarrow> 1000 | Some t \<Rightarrow> t) in
      if lockTtl < minimumTtl cfg then
        ([], Rejected (Error_new (captured ev) (ttl_message cfg)))
      else
        (let lockKeys = (if isArray lockKey then elements lockKey else [lockKey]) in
         if \<not> list_all isString lockKeys then
           ([], Rejected (Error_new (captured ev) key_message))
         else
           (case bluebird_map (\<lambda>key. lock ev (to_string key) lockTtl) lockKeys of
              Inl e \<Rightarrow> (map (\<lambda>key. Acquire (to_string key) lockTtl) lockKeys, Rejected e)
            | Inr locks \<Rightarrow>
                (let (evs, result) = with_locks cfg ev f lockKey lockTtl locks
                 in (map (\<lambda>key. Acquire (to_string key) lockTtl) lockKeys @ evs, result)))))"

section \<open>Observations on an invocation\<close>

text \<open>How a task that settles by itself settles \<open>deferred\<close>.\<close>

definition task_fate :: "js_error + js_value \<Rightarrow> js_value settled" where
  "task_fate r = (case r of Inl e \<Rightarrow> Rejected e | Inr v \<Rightarrow> Fulfilled v)"

text \<open>The effective TTL of an invocation: \<open>lockTtl\<close>, or its default.\<close>

definition ttl_of :: "int option \<Rightarrow> int" where
  "ttl_of ttl = (case ttl of None \<Rightarrow> 1000 | Some t \<Rightarrow> t)"

text \<open>The keys of an invocation, as \<open>run\<close> normalises them.\<close>

definition keys_of :: "js_value \<Rightarrow> js_value list" where
  "keys_of lockKey = (if isArray lockKey then elements lockKey else [lockKey])"

text \<open>A malformed \<open>lockKey\<close>: neither a string nor a sequence of strings.\<close>

definition malformed_key :: "js_value \<Rightarrow> bool" where
  "malformed_key lockKey =
     (\<not> isString lockKey \<and> \<not> (isArray lockKey \<and> list_all isString (elements lockKey)))"

text \<open>The task is still running after \<open>c\<close> interval callbacks.\<close>

fun runs_beyond :: "task \<Rightarrow> int \<Rightarrow> bool" where
  "runs_beyond (Settles m r) c = (c < int m)"
| "runs_beyond Pending c = True"
| "runs_beyond (Throws e) c = False"

text \<open>
  The handles that an invocation acquired, and those of them on which it attempted no
  release: they stay locked after \<open>run\<close> has returned, until their TTL expires.
\<close>

fun acquired :: "env \<Rightarrow> event list \<Rightarrow> handle list" where
  "acquired ev [] = []"
| "acquired ev (Acquire k t # es) =
     (case lock ev k t of Inr h \<Rightarrow> h # acquired ev es | Inl e \<Rightarrow> acquired ev es)"
| "acquired ev (e # es) = acquired ev es"

definition held_at_return :: "env \<Rightarrow> event list \<Rightarrow> handle list" where
  "held_at_return ev tr = filter (\<lambda>h. Unlock h \<notin> set tr) (acquired ev tr)"

text \<open>The reason of a rejected promise.\<close>

fun rejection :: "'a settled \<Rightarrow> js_error option" where
  "rejection (Rejected e) = Some e"
| "rejection d = None"

subsection \<open>Concrete collaborators\<close>

definition task_error :: js_error where
  "task_error = JsError ''Error'' (Some ''Some random error'') (Some ''at f'') None None"

definition unlock_failure :: js_error where
  "unlock_failure = JsError ''Error'' (Some ''Unlocking error'') (Some ''at unlock'') None None"

definition lock_failure :: js_error where
  "lock_failure = JsError ''LockError'' (Some ''asd'') (Some ''at lock'') None None"

text \<open>A lock client on which every operation succeeds; the handle of a key is its length.\<close>

definition env_ok :: env where
  "env_ok = \<lparr> lock = (\<lambda>k ttl. Inr (length k)), extend_h = (\<lambda>n h ttl. None),
              unlock = (\<lambda>h. None), captured = ''at run'' \<rparr>"

definition env_unlock_fails :: env where
  "env_unlock_fails = env_ok \<lparr> unlock := (\<lambda>h. Some unlock_failure) \<rparr>"

definition env_long_key_fails :: env where
  "env_long_key_fails =
     env_ok \<lparr> lock := (\<lambda>k ttl. if length k = 1 then Inr 1 else Inl lock_failure) \<rparr>"

definition extend_failure :: js_error where
  "extend_failure = JsError ''Error'' (Some ''Extending error'') (Some ''at extend'') None None"

definition env_extend_fails :: env where
  "env_extend_fails = env_ok \<lparr> extend_h := (\<lambda>n h ttl. Some extend_failure) \<rparr>"

definition config_cap2 :: config where
  "config_cap2 = default_config \<lparr> maxExtendLockCount := 2 \<rparr>"

section \<open>Properties of the collaborator models\<close>

declare await_deferred.simps [simp del]

lemma bluebird_map_Inl: "bluebird_map fn xs = Inl e \<Longrightarrow> \<exists>x\<in>set xs. fn x = Inl e"
  by (induction xs) (auto split: sum.splits)

lemma bluebird_map_Inr: "bluebird_map fn xs = Inr ys \<Longrightarrow> \<forall>x\<in>set xs. \<exists>y. fn x = Inr y"
  by (induction xs arbitrary: ys) (auto split: sum.splits)

lemma bluebird_map_all_Inr:
  "(\<forall>x\<in>set xs. \<exists>y. fn x = Inr y) \<Longrightarrow> \<exists>ys. bluebird_map fn xs = Inr ys"
  by (induction xs) (auto split: sum.splits)

lemma bluebird_map_fails:
  assumes "\<exists>x\<in>set xs. isl (fn x)"
  shows "\<exists>e. bluebird_map fn xs = Inl e"
proof (cases "bluebird_map fn xs")
  case (Inl e)
  then show ?thesis by blast
next
  case (Inr ys)
  from bluebird_map_Inr [OF Inr] assms show ?thesis by auto
qed

lemma tick_events:
  "set (fst (tick cfg ev lockKey lockTtl locks s))
     \<subseteq> insert Cancel ((\<lambda>l. Extend l lockTtl) ` set locks)"
  by (auto simp: tick_def Let_def split: sum.splits)

lemma tick_cancel_iff:
  "\<not> cancelled s \<Longrightarrow>
   cancelled (snd (tick cfg ev lockKey lockTtl locks s)) \<longleftrightarrow>
     Cancel \<in> set (fst (tick cfg ev lockKey lockTtl locks s))"
  by (auto simp: tick_def Let_def split: sum.splits)

lemma settled_by_Some: "settled_by f n = Some r \<Longrightarrow> \<exists>k. f = Settles k r"
  by (cases f) (auto split: if_splits)

text \<open>
  The execution phase emits only extensions and cancellations; \<open>deferred\<close> ends cancelled
  exactly when the scheduler cancelled it, and otherwise with the task's own fate.
\<close>

lemma await_deferred_fate:
  "\<not> cancelled s \<Longrightarrow> await_deferred cfg ev lockKey lockTtl locks f s = (evs, d, s') \<Longrightarrow>
     set evs \<subseteq> insert Cancel ((\<lambda>l. Extend l lockTtl) ` set locks) \<and>
     (d = Cancelled \<longleftrightarrow> Cancel \<in> set evs) \<and>
     (d \<noteq> Cancelled \<longrightarrow> (\<exists>k r. f = Settles k r \<and> d = task_fate r))"
proof (induction cfg ev lockKey lockTtl locks f s arbitrary: evs d s' rule: await_deferred.induct)
  case (1 cfg ev lockKey lockTtl locks f s)
  note unf = await_deferred.simps [of cfg ev lockKey lockTtl locks f s]
  show ?case
  proof (cases "settled_by f (extendLockCounter s)")
    case (Some r)
    then obtain k where f: "f = Settles k r" using settled_by_Some by blast
    from Some unf "1.prems"(2) have "evs = []" "d = task_fate r"
      by (auto simp: task_fate_def split: sum.splits)
    with f show ?thesis by (cases r) (auto simp: task_fate_def)
  next
    case None
    obtain tevs t where t: "tick cfg ev lockKey lockTtl locks s = (tevs, t)"
      by (cases "tick cfg ev lockKey lockTtl locks s")
    have sub: "set tevs \<subseteq> insert Cancel ((\<lambda>l. Extend l lockTtl) ` set locks)"
      using tick_events [of cfg ev lockKey lockTtl locks s] t by simp
    have ciff: "cancelled t \<longleftrightarrow> Cancel \<in> set tevs"
      using tick_cancel_iff [OF "1.prems"(1), of cfg ev lockKey lockTtl locks] t by simp
    show ?thesis
    proof (cases "cancelled t")
      case True
      with None t unf "1.prems"(2) have "evs = tevs" "d = Cancelled"
        by simp_all
      with sub ciff True show ?thesis by simp
    next
      case False
      obtain revs rd rs where r: "await_deferred cfg ev lockKey lockTtl locks f t = (revs, rd, rs)"
        using prod_cases3 by blast
      from None t False r unf "1.prems"(2) have eq: "evs = tevs @ revs" "d = rd"
        by simp_all
      have ih: "set revs \<subseteq> insert Cancel ((\<lambda>l. Extend l lockTtl) ` set locks) \<and>
                (rd = Cancelled \<longleftrightarrow> Cancel \<in> set revs) \<and>
                (rd \<noteq> Cancelled \<longrightarrow> (\<exists>k r. f = Settles k r \<and> rd = task_fate r))"
        using "1.IH" [OF None refl t [symmetric] False False r] .
      with sub ciff False eq show ?thesis by auto
    qed
  qed
qed

lemma string_of_int_100: "string_of_int 100 = ''100''"
  by code_simp

lemma string_of_int_1000: "string_of_int 1000 = ''1000''"
  by code_simp

section \<open>The structure of run\<close>

lemma malformed_key_iff: "malformed_key lockKey \<longleftrightarrow> \<not> list_all isString (keys_of lockKey)"
  by (cases lockKey) (simp_all add: malformed_key_def keys_of_def)

lemma run_invalid_ttl:
  "ttl_of ttl < minimumTtl cfg \<Longrightarrow>
   run cfg ev f lockKey ttl = ([], Rejected (Error_new (captured ev) (ttl_message cfg)))"
  by (simp add: run_def ttl_of_def)

lemma run_malformed_key:
  "\<not> ttl_of ttl < minimumTtl cfg \<Longrightarrow> malformed_key lockKey \<Longrightarrow>
   run cfg ev f lockKey ttl = ([], Rejected (Error_new (captured ev) key_message))"
  by (simp add: run_def ttl_of_def malformed_key_iff keys_of_def Let_def)

lemma run_lock_fails:
  "\<not> ttl_of ttl < minimumTtl cfg \<Longrightarrow> \<not> malformed_key lockKey \<Longrightarrow>
   bluebird_map (\<lambda>key. lock ev (to_string key) (ttl_of ttl)) (keys_of lockKey) = Inl e \<Longrightarrow>
   run cfg ev f lockKey ttl =
     (map (\<lambda>key. Acquire (to_string key) (ttl_of ttl)) (keys_of lockKey), Rejected e)"
  by (simp add: run_def ttl_of_def malformed_key_iff keys_of_def Let_def)

lemma run_locked:
  "\<not> ttl_of ttl < minimumTtl cfg \<Longrightarrow> \<not> malformed_key lockKey \<Longrightarrow>
   bluebird_map (\<lambda>key. lock ev (to_string key) (ttl_of ttl)) (keys_of lockKey) = Inr locks \<Longrightarrow>
   run cfg ev f lockKey ttl =
     (map (\<lambda>key. Acquire (to_string key) (ttl_of ttl)) (keys_of lockKey)
        @ fst (with_locks cfg ev f lockKey (ttl_of ttl) locks),
      snd (with_locks cfg ev f lockKey (ttl_of ttl) locks))"
  by (simp add: run_def ttl_of_def malformed_key_iff keys_of_def Let_def split: prod.splits)

lemma with_locks_throws:
  "with_locks cfg ev (Throws e) lockKey lockTtl locks = ([Invoke], Rejected e)"
  by (simp add: with_locks_def)

lemma acquired_acquires_invoke:
  "bluebird_map (\<lambda>key. lock ev (to_string key) t) ks = Inr ls \<Longrightarrow>
   acquired ev (map (\<lambda>key. Acquire (to_string key) t) ks @ [Invoke]) = ls"
  by (induction ks arbitrary: ls) (auto split: sum.splits)

lemma with_locks_returns:
  assumes "\<forall>e. f \<noteq> Throws e"
    and "await_deferred cfg ev lockKey lockTtl locks f sched_init = (ticks, d, s)"
  shows "with_locks cfg ev f lockKey lockTtl locks =
           ([Invoke, SetInterval (lockTtl - extendLockBufferOffset cfg)] @ ticks
              @ [ClearInterval] @ map Unlock locks,
            bluebird_finally d (release_chain ev lockKey lockTtl locks d s))"
  using assms by (cases f) (simp_all add: with_locks_def)

lemma sched_init_not_cancelled: "\<not> cancelled sched_init"
  by (simp add: sched_init_def)

lemma run_release_phase:
  assumes "ClearInterval \<in> set (fst (run cfg ev f lockKey ttl))
           \<or> SetInterval i \<in> set (fst (run cfg ev f lockKey ttl))"
  shows "\<exists>locks ticks d s.
    bluebird_map (\<lambda>key. lock ev (to_string key) (ttl_of ttl)) (keys_of lockKey) = Inr locks \<and>
    await_deferred cfg ev lockKey (ttl_of ttl) locks f sched_init = (ticks, d, s) \<and>
    fst (run cfg ev f lockKey ttl) =
       map (\<lambda>key. Acquire (to_string key) (ttl_of ttl)) (keys_of lockKey)
         @ [Invoke, SetInterval (ttl_of ttl - extendLockBufferOffset cfg)] @ ticks
         @ [ClearInterval] @ map Unlock locks \<and>
    snd (run cfg ev f lockKey ttl) =
       bluebird_finally d (release_chain ev lockKey (ttl_of ttl) locks d s)"
proof -
  have v1: "\<not> ttl_of ttl < minimumTtl cfg"
    using assms run_invalid_ttl [of ttl cfg ev f lockKey] by auto
  have v2: "\<not> malformed_key lockKey"
    using assms v1 run_malformed_key [of ttl cfg lockKey ev f] by auto
  obtain locks where
    l: "bluebird_map (\<lambda>key. lock ev (to_string key) (ttl_of ttl)) (keys_of lockKey) = Inr locks"
  proof (cases "bluebird_map (\<lambda>key. lock ev (to_string key) (ttl_of ttl)) (keys_of lockKey)")
    case (Inl e)
    from run_lock_fails [OF v1 v2 Inl, of f] assms show ?thesis by auto
  next
    case (Inr locks)
    then show ?thesis using that by blast
  qed
  note r = run_locked [OF v1 v2 l, of f]
  have nt: "\<forall>e. f \<noteq> Throws e"
  proof (intro allI notI)
    fix e assume "f = Throws e"
    with r assms show False by (auto simp: with_locks_throws)
  qed
  obtain ticks d s where
    a: "await_deferred cfg ev lockKey (ttl_of ttl) locks f sched_init = (ticks, d, s)"
    using prod_cases3 by blast
  from r with_locks_returns [OF nt a] l a show ?thesis by simp
qed

lemma unit_result_Inl: "unit_result r = Inl e \<longleftrightarrow> r = Some e"
  by (simp add: unit_result_def split: option.splits)

lemma unit_result_isl: "isl (unit_result r) \<longleftrightarrow> r \<noteq> None"
  by (simp add: unit_result_def split: option.splits)

lemma release_chain_unlock_fails:
  "bluebird_map (\<lambda>l. unit_result (unlock ev l)) locks = Inl error \<Longrightarrow>
   release_chain ev lockKey lockTtl locks d s =
     Some (JsError ''UnlockError'' (Some (unlock_message lockKey lockTtl error)) (stack error)
             None None)"
  by (simp add: release_chain_def UnlockError_new_def)

text \<open>No error that the release chain builds has an \<open>extendLockLimit\<close> or an \<open>extra\<close>.\<close>

lemma release_chain_fields:
  "release_chain ev lockKey lockTtl locks d s = Some x \<Longrightarrow>
   extendLockLimit x = None \<and> extra x = None"
  by (auto simp: release_chain_def UnlockError_new_def ExtendLockError_new_def
           split: sum.splits if_splits)

lemma release_chain_unlocked:
  "bluebird_map (\<lambda>l. unit_result (unlock ev l)) locks = Inr u \<Longrightarrow>
   release_chain ev lockKey lockTtl locks d s =
     (if d = Cancelled then
        Some (JsError ''ExtendLockError'' (errMessage s)
                (case errStack s of None \<Rightarrow> Some (captured ev)
                 | Some st \<Rightarrow> if st = [] then Some (captured ev) else Some st)
                None None)
      else None)"
  by (simp add: release_chain_def ExtendLockError_new_def)

lemma run_trace_members:
  assumes "await_deferred cfg ev lockKey lockTtl locks f sched_init = (ticks, d, s)"
    and "tr = map (\<lambda>key. Acquire (to_string key) lockTtl) ks
         @ [Invoke, SetInterval i] @ ticks @ [ClearInterval] @ map Unlock locks"
  shows "(Unlock h \<in> set tr \<longleftrightarrow> h \<in> set locks) \<and> (Cancel \<in> set tr \<longleftrightarrow> d = Cancelled)"
proof -
  from await_deferred_fate [OF sched_init_not_cancelled assms(1)]
  have sub: "set ticks \<subseteq> insert Cancel ((\<lambda>l. Extend l lockTtl) ` set locks)"
    and c: "d = Cancelled \<longleftrightarrow> Cancel \<in> set ticks" by simp_all
  from sub have "Unlock h \<notin> set ticks" by auto
  with assms(2) c show ?thesis by auto
qed

lemma runs_beyond_not_settled: "runs_beyond f c \<Longrightarrow> n \<le> c \<Longrightarrow> settled_by f n = None"
  by (cases f) auto

lemma tick_extends:
  assumes "extendLockCounter s + 1 \<le> maxExtendLockCount cfg"
    and "\<forall>h\<in>set locks. extend_h ev (extendLockCounter s + 1) h lockTtl = None"
  shows "tick cfg ev lockKey lockTtl locks s =
           (map (\<lambda>l. Extend l lockTtl) locks, s\<lparr> extendLockCounter := extendLockCounter s + 1 \<rparr>)"
proof -
  from assms(2) have "\<forall>h\<in>set locks. \<exists>y. unit_result (extend_h ev (extendLockCounter s + 1) h lockTtl) = Inr y"
    by (simp add: unit_result_def)
  from bluebird_map_all_Inr [OF this] obtain u where
    "bluebird_map (\<lambda>l. unit_result (extend_h ev (extendLockCounter s + 1) l lockTtl)) locks = Inr u"
    by blast
  with assms(1) show ?thesis by (simp add: tick_def Let_def)
qed

lemma tick_cap_exceeded:
  assumes "extendLockCounter s + 1 > maxExtendLockCount cfg"
  shows "tick cfg ev lockKey lockTtl locks s =
           ([Cancel],
            s\<lparr> extendLockCounter := extendLockCounter s + 1, cancelled := True,
               errMessage := Some (cap_message cfg lockKey (extendLockCounter s + 1)) \<rparr>)"
  using assms by (simp add: tick_def Let_def)

lemma await_deferred_until_cap:
  assumes "runs_beyond f (maxExtendLockCount cfg)"
    and "\<forall>n h. 1 \<le> n \<and> n \<le> maxExtendLockCount cfg \<and> h \<in> set locks
           \<longrightarrow> extend_h ev n h lockTtl = None"
  shows "n = nat (maxExtendLockCount cfg - extendLockCounter s) \<Longrightarrow>
         0 \<le> extendLockCounter s \<Longrightarrow> extendLockCounter s \<le> maxExtendLockCount cfg \<Longrightarrow>
         \<not> cancelled s \<Longrightarrow>
         await_deferred cfg ev lockKey lockTtl locks f s =
           (concat (replicate n (map (\<lambda>l. Extend l lockTtl) locks)) @ [Cancel],
            Cancelled,
            s\<lparr> extendLockCounter := maxExtendLockCount cfg + 1, cancelled := True,
               errMessage := Some (cap_message cfg lockKey (maxExtendLockCount cfg + 1)) \<rparr>)"
proof (induction n arbitrary: s)
  case 0
  then have c: "extendLockCounter s = maxExtendLockCount cfg" by simp
  have ns: "settled_by f (extendLockCounter s) = None"
    using runs_beyond_not_settled [OF assms(1)] c by simp
  have t: "tick cfg ev lockKey lockTtl locks s =
           ([Cancel],
            s\<lparr> extendLockCounter := extendLockCounter s + 1, cancelled := True,
               errMessage := Some (cap_message cfg lockKey (extendLockCounter s + 1)) \<rparr>)"
    by (rule tick_cap_exceeded) (simp add: c)
  have "await_deferred cfg ev lockKey lockTtl locks f s =
          ([Cancel], Cancelled,
           s\<lparr> extendLockCounter := extendLockCounter s + 1, cancelled := True,
              errMessage := Some (cap_message cfg lockKey (extendLockCounter s + 1)) \<rparr>)"
    by (subst await_deferred.simps) (simp add: ns t)
  then show ?case by (simp add: c)
next
  case (Suc n)
  then have lt: "extendLockCounter s + 1 \<le> maxExtendLockCount cfg" by simp
  have ns: "settled_by f (extendLockCounter s) = None"
    using runs_beyond_not_settled [OF assms(1)] "Suc.prems" by simp
  have ex: "\<forall>h\<in>set locks. extend_h ev (extendLockCounter s + 1) h lockTtl = None"
    using assms(2) lt "Suc.prems"(2) by simp
  let ?s = "s\<lparr> extendLockCounter := extendLockCounter s + 1 \<rparr>"
  note t = tick_extends [OF lt ex, of lockKey]
  have ih: "await_deferred cfg ev lockKey lockTtl locks f ?s =
           (concat (replicate n (map (\<lambda>l. Extend l lockTtl) locks)) @ [Cancel],
            Cancelled,
            ?s\<lparr> extendLockCounter := maxExtendLockCount cfg + 1, cancelled := True,
               errMessage := Some (cap_message cfg lockKey (maxExtendLockCount cfg + 1)) \<rparr>)"
    using Suc.prems by (intro Suc.IH) simp_all
  show ?case
    by (subst await_deferred.simps) (simp add: ns t ih "Suc.prems"(4))
qed


lemma tick_increments:
  "extendLockCounter (snd (tick cfg ev lockKey lockTtl locks s)) = extendLockCounter s + 1"
  by (simp add: tick_def Let_def split: sum.splits)

lemma count_list_map_Extend:
  "count_list (map (\<lambda>l. Extend l t) ls) (Extend h t) = count_list ls h"
  by (induction ls) auto

lemma count_list_concat_replicate:
  "count_list (concat (replicate n xs)) x = n * count_list xs x"
  by (induction n) (auto simp: algebra_simps)

lemma count_list_absent: "x \<notin> set xs \<Longrightarrow> count_list xs x = 0"
  by (induction xs) auto

subsection \<open>Concrete invocations\<close>

lemmas run_eval =
  run_def with_locks_def sched_init_def tick_def unit_result_def release_chain_def
  bluebird_finally_def UnlockError_new_def ExtendLockError_new_def
  default_config_def config_cap2_def env_ok_def env_unlock_fails_def

lemma run_task_fails_unlock_fails:
  "run default_config env_unlock_fails (Settles 0 (Inl task_error)) (JString ''k'') None =
     ([Acquire ''k'' 1000, Invoke, SetInterval 950, ClearInterval, Unlock 1],
      Rejected (JsError ''UnlockError''
                  (Some (unlock_message (JString ''k'') 1000 unlock_failure))
                  (stack unlock_failure) None None))"
  by (simp add: run_eval await_deferred.simps)

lemma run_task_ok_unlock_fails:
  "run default_config env_unlock_fails (Settles 0 (Inr JUndefined)) (JString ''k'') None =
     ([Acquire ''k'' 1000, Invoke, SetInterval 950, ClearInterval, Unlock 1],
      Rejected (JsError ''UnlockError''
                  (Some (unlock_message (JString ''k'') 1000 unlock_failure))
                  (stack unlock_failure) None None))"
  by (simp add: run_eval await_deferred.simps)

lemma run_task_fails:
  "run default_config env_ok (Settles 0 (Inl task_error)) (JString ''k'') None =
     ([Acquire ''k'' 1000, Invoke, SetInterval 950, ClearInterval, Unlock 1],
      Rejected task_error)"
  by (simp add: run_eval await_deferred.simps)

lemma run_cap2_unlock_fails:
  "run config_cap2 env_unlock_fails Pending (JString ''k'') None =
     ([Acquire ''k'' 1000, Invoke, SetInterval 950, Extend 1 1000, Extend 1 1000, Cancel,
       ClearInterval, Unlock 1],
      Rejected (JsError ''UnlockError''
                  (Some (unlock_message (JString ''k'') 1000 unlock_failure))
                  (stack unlock_failure) None None))"
  by (simp add: run_eval await_deferred.simps)

lemma run_cap2:
  "run config_cap2 env_ok Pending (JString ''k'') None =
     ([Acquire ''k'' 1000, Invoke, SetInterval 950, Extend 1 1000, Extend 1 1000, Cancel,
       ClearInterval, Unlock 1],
      Rejected (JsError ''ExtendLockError''
                  (Some (cap_message config_cap2 (JString ''k'') 3))
                  (Some ''at run'') None None))"
  by (simp add: run_eval await_deferred.simps)

lemma run_cancelled_at_cap:
  assumes "\<not> ttl_of ttl < minimumTtl cfg" and "\<not> malformed_key lockKey"
    and "bluebird_map (\<lambda>key. lock ev (to_string key) (ttl_of ttl)) (keys_of lockKey) = Inr locks"
    and "0 \<le> maxExtendLockCount cfg"
    and "runs_beyond f (maxExtendLockCount cfg)"
    and "\<forall>n h. 1 \<le> n \<and> n \<le> maxExtendLockCount cfg \<and> h \<in> set locks
           \<longrightarrow> extend_h ev n h (ttl_of ttl) = None"
    and "bluebird_map (\<lambda>l. unit_result (unlock ev l)) locks = Inr u"
  shows "snd (run cfg ev f lockKey ttl) =
           Rejected (JsError ''ExtendLockError''
                       (Some (cap_message cfg lockKey (maxExtendLockCount cfg + 1)))
                       (Some (captured ev)) None None)"
proof -
  have nt: "\<forall>e. f \<noteq> Throws e" using assms(5) by auto
  have a: "await_deferred cfg ev lockKey (ttl_of ttl) locks f sched_init =
           (concat (replicate (nat (maxExtendLockCount cfg))
                      (map (\<lambda>l. Extend l (ttl_of ttl)) locks)) @ [Cancel],
            Cancelled,
            sched_init\<lparr> extendLockCounter := maxExtendLockCount cfg + 1, cancelled := True,
               errMessage := Some (cap_message cfg lockKey (maxExtendLockCount cfg + 1)) \<rparr>)"
    using assms(4)
    by (intro await_deferred_until_cap [OF assms(5,6)]) (simp_all add: sched_init_def)
  show ?thesis
    using run_locked [OF assms(1,2,3), of f] with_locks_returns [OF nt a]
          release_chain_unlocked [OF assms(7)]
    by (simp add: bluebird_finally_def sched_init_def)
qed

lemma run_default_cap:
  "snd (run default_config env_ok Pending (JString ''lock-key'') (Some 110)) =
     Rejected (JsError ''ExtendLockError''
                 (Some (cap_message default_config (JString ''lock-key'') 21))
                 (Some ''at run'') None None)"
proof -
  have a: "\<not> ttl_of (Some 110) < minimumTtl default_config"
    by (simp add: ttl_of_def default_config_def)
  have b: "\<not> malformed_key (JString ''lock-key'')"
    by (simp add: malformed_key_def)
  have c: "bluebird_map (\<lambda>key. lock env_ok (to_string key) (ttl_of (Some 110)))
             (keys_of (JString ''lock-key'')) = Inr [8]"
    by (simp add: keys_of_def env_ok_def)
  have d: "0 \<le> maxExtendLockCount default_config"
    by (simp add: default_config_def)
  have e: "runs_beyond Pending (maxExtendLockCount default_config)"
    by simp
  have f: "\<forall>n h. 1 \<le> n \<and> n \<le> maxExtendLockCount default_config \<and> h \<in> set [8]
          \<longrightarrow> extend_h env_ok n h (ttl_of (Some 110)) = None"
    by (simp add: env_ok_def)
  have g: "bluebird_map (\<lambda>l. unit_result (unlock env_ok l)) [8] = Inr [()]"
    by (simp add: env_ok_def unit_result_def)
  have "maxExtendLockCount default_config + 1 = 21" "captured env_ok = ''at run''"
    by (simp_all add: default_config_def env_ok_def)
  with run_cancelled_at_cap [OF a b c d e f g] show ?thesis by simp
qed

lemma run_extend_fails:
  "run default_config env_extend_fails Pending (JString ''lock-key'') None =
     ([Acquire ''lock-key'' 1000, Invoke, SetInterval 950, Extend 8 1000, Cancel,
       ClearInterval, Unlock 8],
      Rejected (JsError ''ExtendLockError'' (message extend_failure) (stack extend_failure)
                  None None))"
  by (simp add: run_eval env_extend_fails_def await_deferred.simps extend_failure_def)

section \<open>Input validation\<close>

text \<open>
  C6. An invocation whose \<open>lockTtl\<close> is below \<open>minimumTtl\<close>, or whose \<open>lockKey\<close> is
  neither a string nor a sequence of strings, is rejected without any side effect: its
  event trace is empty, so there is no acquire, no call of the task, no extend, no
  release, and the interval is never set.
\<close>

theorem validation_has_no_side_effect:
  assumes "ttl_of ttl < minimumTtl cfg \<or> malformed_key lockKey"
  shows "fst (run cfg ev f lockKey ttl) = [] \<and> (\<exists>e. snd (run cfg ev f lockKey ttl) = Rejected e)"
proof (cases "ttl_of ttl < minimumTtl cfg")
  case True
  then show ?thesis by (simp add: run_invalid_ttl)
next
  case False
  with assms have "malformed_key lockKey" by simp
  with False show ?thesis by (simp add: run_malformed_key)
qed

theorem validation_has_no_side_effect_witness:
  "(ttl_of (Some 99) < minimumTtl default_config \<or> malformed_key (JString ''lock-key''))
   \<and> fst (run default_config env_ok (Settles 0 (Inr JUndefined)) (JString ''lock-key'') (Some 99)) = []
   \<and> (ttl_of None < minimumTtl default_config \<or> malformed_key (JArray [JObject]))
   \<and> fst (run default_config env_ok (Settles 0 (Inr JUndefined)) (JArray [JObject]) None) = []"
  using validation_has_no_side_effect
          [of "Some 99" default_config "JString ''lock-key''" env_ok "Settles 0 (Inr JUndefined)"]
        validation_has_no_side_effect
          [of None default_config "JArray [JObject]" env_ok "Settles 0 (Inr JUndefined)"]
  by (simp add: ttl_of_def default_config_def malformed_key_def)

text \<open>
  C9. The TTL gate is the strict comparison \<open>lockTtl < minimumTtl\<close>. With \<open>lockTtl\<close>
  equal to \<open>minimumTtl\<close> the gate is passed: a well-formed key has every one of its keys
  acquired with that TTL, and a malformed key is rejected with the key-shape error, not
  the TTL error. Only a smaller TTL is rejected, with a message that says the TTL must
  be more than \<open>minimumTtl\<close>.
\<close>

theorem ttl_equal_to_minimum_is_accepted:
  "(ttl_of ttl = minimumTtl cfg \<and> \<not> malformed_key lockKey \<longrightarrow>
      (\<exists>rest. fst (run cfg ev f lockKey ttl) =
                 map (\<lambda>key. Acquire (to_string key) (minimumTtl cfg)) (keys_of lockKey) @ rest))
   \<and> (ttl_of ttl = minimumTtl cfg \<and> malformed_key lockKey \<longrightarrow>
         run cfg ev f lockKey ttl = ([], Rejected (Error_new (captured ev) key_message)))
   \<and> (ttl_of ttl < minimumTtl cfg \<longrightarrow>
         run cfg ev f lockKey ttl =
           ([], Rejected (Error_new (captured ev)
                  (''TTL must be more than '' @ string_of_int (minimumTtl cfg) @ '' ms!''))))"
proof (intro conjI impI)
  assume a: "ttl_of ttl = minimumTtl cfg \<and> \<not> malformed_key lockKey"
  then have v: "\<not> ttl_of ttl < minimumTtl cfg" "\<not> malformed_key lockKey" by simp_all
  show "\<exists>rest. fst (run cfg ev f lockKey ttl) =
                 map (\<lambda>key. Acquire (to_string key) (minimumTtl cfg)) (keys_of lockKey) @ rest"
  proof (cases "bluebird_map (\<lambda>key. lock ev (to_string key) (ttl_of ttl)) (keys_of lockKey)")
    case (Inl e)
    from run_lock_fails [OF v Inl] a show ?thesis by simp
  next
    case (Inr locks)
    from run_locked [OF v Inr] a show ?thesis by simp
  qed
next
  assume "ttl_of ttl = minimumTtl cfg \<and> malformed_key lockKey"
  then show "run cfg ev f lockKey ttl = ([], Rejected (Error_new (captured ev) key_message))"
    by (simp add: run_malformed_key)
next
  assume "ttl_of ttl < minimumTtl cfg"
  then show "run cfg ev f lockKey ttl =
           ([], Rejected (Error_new (captured ev)
                  (''TTL must be more than '' @ string_of_int (minimumTtl cfg) @ '' ms!'')))"
    by (simp add: run_invalid_ttl ttl_message_def)
qed

theorem ttl_equal_to_minimum_is_accepted_witness:
  "ttl_of (Some 100) = minimumTtl default_config \<and> \<not> malformed_key (JString ''lock-key'')
   \<and> (\<exists>rest. fst (run default_config env_ok (Settles 0 (Inr JUndefined))
                      (JString ''lock-key'') (Some 100))
                = [Acquire ''lock-key'' 100] @ rest)
   \<and> ttl_of (Some 100) = minimumTtl default_config \<and> malformed_key JObject
   \<and> run default_config env_ok (Settles 0 (Inr JUndefined)) JObject (Some 100)
       = ([], Rejected (Error_new ''at run'' key_message))
   \<and> ttl_of (Some 99) < minimumTtl default_config
   \<and> run default_config env_ok (Settles 0 (Inr JUndefined)) (JString ''lock-key'') (Some 99)
       = ([], Rejected (Error_new ''at run'' ''TTL must be more than 100 ms!''))"
  using ttl_equal_to_minimum_is_accepted
          [of "Some 100" default_config "JString ''lock-key''" env_ok "Settles 0 (Inr JUndefined)"]
        ttl_equal_to_minimum_is_accepted
          [of "Some 100" default_config JObject env_ok "Settles 0 (Inr JUndefined)"]
        ttl_equal_to_minimum_is_accepted
          [of "Some 99" default_config "JString ''lock-key''" env_ok "Settles 0 (Inr JUndefined)"]
  by (simp add: ttl_of_def default_config_def malformed_key_def keys_of_def env_ok_def
                string_of_int_100)

section \<open>A task that throws when it is called\<close>

text \<open>
  C10. When all locks are acquired and the task throws synchronously when it is called,
  \<open>run\<close> rejects with that exception, the interval is never set and no release is
  attempted: every acquired handle is still held when \<open>run\<close> returns.
\<close>

theorem synchronous_throw_skips_scheduler_and_release:
  assumes "\<not> ttl_of ttl < minimumTtl cfg" and "\<not> malformed_key lockKey"
    and "bluebird_map (\<lambda>key. lock ev (to_string key) (ttl_of ttl)) (keys_of lockKey) = Inr locks"
  shows "run cfg ev (Throws e) lockKey ttl =
           (map (\<lambda>key. Acquire (to_string key) (ttl_of ttl)) (keys_of lockKey) @ [Invoke],
            Rejected e)
         \<and> (\<forall>i. SetInterval i \<notin> set (fst (run cfg ev (Throws e) lockKey ttl)))
         \<and> (\<forall>h. Unlock h \<notin> set (fst (run cfg ev (Throws e) lockKey ttl)))
         \<and> held_at_return ev (fst (run cfg ev (Throws e) lockKey ttl)) = locks"
proof -
  have r: "run cfg ev (Throws e) lockKey ttl =
           (map (\<lambda>key. Acquire (to_string key) (ttl_of ttl)) (keys_of lockKey) @ [Invoke],
            Rejected e)"
    using run_locked [OF assms] by (simp add: with_locks_throws)
  have none: "Unlock h \<notin> set (fst (run cfg ev (Throws e) lockKey ttl))" for h
    using r by auto
  have "held_at_return ev (fst (run cfg ev (Throws e) lockKey ttl)) = locks"
    unfolding held_at_return_def using none acquired_acquires_invoke [OF assms(3)] r by simp
  with r none show ?thesis by auto
qed

theorem synchronous_throw_skips_scheduler_and_release_witness:
  "\<not> ttl_of None < minimumTtl default_config
   \<and> \<not> malformed_key (JArray [JString ''a'', JString ''bb''])
   \<and> bluebird_map (\<lambda>key. lock env_ok (to_string key) (ttl_of None))
        (keys_of (JArray [JString ''a'', JString ''bb''])) = Inr [1, 2]
   \<and> run default_config env_ok (Throws task_error) (JArray [JString ''a'', JString ''bb'']) None
       = ([Acquire ''a'' 1000, Acquire ''bb'' 1000, Invoke], Rejected task_error)
   \<and> held_at_return env_ok
        (fst (run default_config env_ok (Throws task_error)
                (JArray [JString ''a'', JString ''bb'']) None)) = [1, 2]"
proof -
  have a: "\<not> ttl_of None < minimumTtl default_config"
    by (simp add: ttl_of_def default_config_def)
  have b: "\<not> malformed_key (JArray [JString ''a'', JString ''bb''])"
    by (simp add: malformed_key_def)
  have c: "bluebird_map (\<lambda>key. lock env_ok (to_string key) (ttl_of None))
             (keys_of (JArray [JString ''a'', JString ''bb''])) = Inr [1, 2]"
    by (simp add: keys_of_def env_ok_def)
  note t = synchronous_throw_skips_scheduler_and_release [OF a b c, of task_error]
  have d: "run default_config env_ok (Throws task_error) (JArray [JString ''a'', JString ''bb'']) None
       = ([Acquire ''a'' 1000, Acquire ''bb'' 1000, Invoke], Rejected task_error)"
    using t by (simp add: keys_of_def ttl_of_def)
  have e: "held_at_return env_ok
        (fst (run default_config env_ok (Throws task_error)
                (JArray [JString ''a'', JString ''bb'']) None)) = [1, 2]"
    using t by blast
  from a b c d e show ?thesis by blast
qed

section \<open>Failed acquisition\<close>

text \<open>
  C3, as the code has it. When acquiring one of the keys fails, \<open>run\<close> is rejected with
  the error that the lock client gave for a failing key, unchanged; every key was
  requested, the task is never called and no release is attempted. So every lock of the
  invocation that was acquired is still held when \<open>run\<close> returns.
\<close>

theorem failed_acquisition_releases_nothing:
  assumes "\<not> ttl_of ttl < minimumTtl cfg" and "\<not> malformed_key lockKey"
    and "\<exists>key\<in>set (keys_of lockKey). isl (lock ev (to_string key) (ttl_of ttl))"
  shows "(\<exists>key\<in>set (keys_of lockKey). \<exists>e.
            lock ev (to_string key) (ttl_of ttl) = Inl e \<and>
            snd (run cfg ev f lockKey ttl) = Rejected e)
         \<and> fst (run cfg ev f lockKey ttl) =
             map (\<lambda>key. Acquire (to_string key) (ttl_of ttl)) (keys_of lockKey)
         \<and> Invoke \<notin> set (fst (run cfg ev f lockKey ttl))
         \<and> (\<forall>h. Unlock h \<notin> set (fst (run cfg ev f lockKey ttl)))
         \<and> held_at_return ev (fst (run cfg ev f lockKey ttl)) =
             acquired ev (fst (run cfg ev f lockKey ttl))"
proof -
  from assms(3) obtain e where
    e: "bluebird_map (\<lambda>key. lock ev (to_string key) (ttl_of ttl)) (keys_of lockKey) = Inl e"
    using bluebird_map_fails [of "keys_of lockKey" "\<lambda>key. lock ev (to_string key) (ttl_of ttl)"]
    by blast
  note r = run_lock_fails [OF assms(1,2) e, of f]
  from bluebird_map_Inl [OF e] r
  have 1: "\<exists>key\<in>set (keys_of lockKey). \<exists>e.
            lock ev (to_string key) (ttl_of ttl) = Inl e \<and>
            snd (run cfg ev f lockKey ttl) = Rejected e"
    by auto
  have 2: "fst (run cfg ev f lockKey ttl) =
             map (\<lambda>key. Acquire (to_string key) (ttl_of ttl)) (keys_of lockKey)"
    using r by simp
  have 3: "Invoke \<notin> set (fst (run cfg ev f lockKey ttl))"
    and 4: "\<forall>h. Unlock h \<notin> set (fst (run cfg ev f lockKey ttl))"
    using 2 by auto
  have 5: "held_at_return ev (fst (run cfg ev f lockKey ttl)) =
             acquired ev (fst (run cfg ev f lockKey ttl))"
    unfolding held_at_return_def using 4 by simp
  from 1 2 3 4 5 show ?thesis by blast
qed

theorem failed_acquisition_releases_nothing_witness:
  "\<not> ttl_of None < minimumTtl default_config
   \<and> \<not> malformed_key (JArray [JString ''a'', JString ''bb''])
   \<and> (\<exists>key\<in>set (keys_of (JArray [JString ''a'', JString ''bb''])).
          isl (lock env_long_key_fails (to_string key) (ttl_of None)))
   \<and> fst (run default_config env_long_key_fails (Settles 0 (Inr JUndefined))
             (JArray [JString ''a'', JString ''bb'']) None)
       = [Acquire ''a'' 1000, Acquire ''bb'' 1000]
   \<and> Invoke \<notin> set (fst (run default_config env_long_key_fails (Settles 0 (Inr JUndefined))
                            (JArray [JString ''a'', JString ''bb'']) None))"
proof -
  have a: "\<not> ttl_of None < minimumTtl default_config"
    by (simp add: ttl_of_def default_config_def)
  have b: "\<not> malformed_key (JArray [JString ''a'', JString ''bb''])"
    by (simp add: malformed_key_def)
  have c: "\<exists>key\<in>set (keys_of (JArray [JString ''a'', JString ''bb''])).
          isl (lock env_long_key_fails (to_string key) (ttl_of None))"
    by (simp add: keys_of_def env_long_key_fails_def)
  note t = failed_acquisition_releases_nothing [OF a b c, of "Settles 0 (Inr JUndefined)"]
  have d: "fst (run default_config env_long_key_fails (Settles 0 (Inr JUndefined))
             (JArray [JString ''a'', JString ''bb'']) None)
       = [Acquire ''a'' 1000, Acquire ''bb'' 1000]"
    using t by (simp add: keys_of_def ttl_of_def)
  have e: "Invoke \<notin> set (fst (run default_config env_long_key_fails (Settles 0 (Inr JUndefined))
                            (JArray [JString ''a'', JString ''bb'']) None))"
    using t by blast
  from a b c d e show ?thesis by blast
qed

text \<open>
  C3, as stated, fails: with keys \<open>a\<close> and \<open>bb\<close>, where \<open>a\<close> is acquired (handle 1) and
  \<open>bb\<close> is refused, \<open>run\<close> is rejected with the refusal and handle 1 is still held.
\<close>

theorem failed_acquisition_leaves_lock_held:
  "lock env_long_key_fails ''bb'' 1000 = Inl lock_failure
   \<and> run default_config env_long_key_fails (Settles 0 (Inr JUndefined))
        (JArray [JString ''a'', JString ''bb'']) None
       = ([Acquire ''a'' 1000, Acquire ''bb'' 1000], Rejected lock_failure)
   \<and> held_at_return env_long_key_fails
        (fst (run default_config env_long_key_fails (Settles 0 (Inr JUndefined))
               (JArray [JString ''a'', JString ''bb'']) None)) = [1]"
  by (simp add: run_def default_config_def env_long_key_fails_def env_ok_def held_at_return_def)

section \<open>The release phase\<close>

text \<open>
  C5. An invocation that sets the interval clears it before it attempts any release:
  its trace is a prefix that holds the \<open>setInterval\<close> and neither a \<open>clearInterval\<close> nor
  an unlock, then the \<open>clearInterval\<close>, then only unlocks (so no extension follows the
  \<open>clearInterval\<close>).
\<close>

theorem scheduler_disarmed_before_release:
  assumes "SetInterval i \<in> set (fst (run cfg ev f lockKey ttl))"
  shows "\<exists>pre locks.
           fst (run cfg ev f lockKey ttl) = pre @ [ClearInterval] @ map Unlock locks
           \<and> SetInterval i \<in> set pre
           \<and> ClearInterval \<notin> set pre
           \<and> (\<forall>h. Unlock h \<notin> set pre)"
proof -
  from run_release_phase [OF disjI2 [OF assms]] obtain locks ticks d s where
    a: "await_deferred cfg ev lockKey (ttl_of ttl) locks f sched_init = (ticks, d, s)" and
    t0: "fst (run cfg ev f lockKey ttl) =
       map (\<lambda>key. Acquire (to_string key) (ttl_of ttl)) (keys_of lockKey)
         @ [Invoke, SetInterval (ttl_of ttl - extendLockBufferOffset cfg)] @ ticks
         @ [ClearInterval] @ map Unlock locks"
    by blast
  then have t: "fst (run cfg ev f lockKey ttl) =
       (map (\<lambda>key. Acquire (to_string key) (ttl_of ttl)) (keys_of lockKey)
         @ [Invoke, SetInterval (ttl_of ttl - extendLockBufferOffset cfg)] @ ticks)
         @ [ClearInterval] @ map Unlock locks"
    by simp
  let ?pre = "map (\<lambda>key. Acquire (to_string key) (ttl_of ttl)) (keys_of lockKey)
         @ [Invoke, SetInterval (ttl_of ttl - extendLockBufferOffset cfg)] @ ticks"
  from await_deferred_fate [OF sched_init_not_cancelled a]
  have sub: "set ticks \<subseteq> insert Cancel ((\<lambda>l. Extend l (ttl_of ttl)) ` set locks)" by simp
  have 1: "ClearInterval \<notin> set ?pre" "\<forall>h. Unlock h \<notin> set ?pre"
    using sub by auto
  have "SetInterval i \<in> set ?pre"
    using assms t by auto
  with t 1 show ?thesis by blast
qed

theorem scheduler_disarmed_before_release_witness:
  "SetInterval 250 \<in> set (fst (run default_config env_ok (Settles 1 (Inr JUndefined))
                                 (JString ''k'') (Some 300)))
   \<and> fst (run default_config env_ok (Settles 1 (Inr JUndefined)) (JString ''k'') (Some 300))
       = [Acquire ''k'' 300, Invoke, SetInterval 250, Extend 1 300, ClearInterval, Unlock 1]
   \<and> (\<exists>pre locks.
           fst (run default_config env_ok (Settles 1 (Inr JUndefined)) (JString ''k'') (Some 300))
             = pre @ [ClearInterval] @ map Unlock locks
           \<and> SetInterval 250 \<in> set pre
           \<and> ClearInterval \<notin> set pre
           \<and> (\<forall>h. Unlock h \<notin> set pre))"
proof -
  have r: "fst (run default_config env_ok (Settles 1 (Inr JUndefined)) (JString ''k'') (Some 300))
       = [Acquire ''k'' 300, Invoke, SetInterval 250, Extend 1 300, ClearInterval, Unlock 1]"
    by (simp add: run_def default_config_def env_ok_def with_locks_def sched_init_def
                  await_deferred.simps tick_def unit_result_def)
  then have a: "SetInterval 250 \<in> set (fst (run default_config env_ok (Settles 1 (Inr JUndefined))
                                 (JString ''k'') (Some 300)))"
    by simp
  from a r scheduler_disarmed_before_release [OF a] show ?thesis by blast
qed

section \<open>Outcome priority\<close>

text \<open>
  C1, as the code has it. For an invocation that reaches the release phase:
  a failed release is reported as \<open>UnlockError\<close>, whatever the task did; otherwise a
  cancellation by the scheduler is reported as \<open>ExtendLockError\<close>; otherwise the task
  settled by itself and its outcome, error or value, is reported unchanged.
\<close>

theorem release_failure_outranks_task_error_and_cancellation:
  assumes "ClearInterval \<in> set (fst (run cfg ev f lockKey ttl))"
  shows "((\<exists>h. Unlock h \<in> set (fst (run cfg ev f lockKey ttl)) \<and> unlock ev h \<noteq> None) \<longrightarrow>
            (\<exists>u. snd (run cfg ev f lockKey ttl) = Rejected u \<and> name u = ''UnlockError''))
       \<and> (\<not> (\<exists>h. Unlock h \<in> set (fst (run cfg ev f lockKey ttl)) \<and> unlock ev h \<noteq> None)
            \<and> Cancel \<in> set (fst (run cfg ev f lockKey ttl)) \<longrightarrow>
            (\<exists>x. snd (run cfg ev f lockKey ttl) = Rejected x \<and> name x = ''ExtendLockError''))
       \<and> (\<not> (\<exists>h. Unlock h \<in> set (fst (run cfg ev f lockKey ttl)) \<and> unlock ev h \<noteq> None)
            \<and> Cancel \<notin> set (fst (run cfg ev f lockKey ttl)) \<longrightarrow>
            (\<exists>k r. f = Settles k r \<and> snd (run cfg ev f lockKey ttl) = task_fate r))"
proof -
  from run_release_phase [OF disjI1 [OF assms]] obtain locks ticks d s where
    a: "await_deferred cfg ev lockKey (ttl_of ttl) locks f sched_init = (ticks, d, s)" and
    t: "fst (run cfg ev f lockKey ttl) =
       map (\<lambda>key. Acquire (to_string key) (ttl_of ttl)) (keys_of lockKey)
         @ [Invoke, SetInterval (ttl_of ttl - extendLockBufferOffset cfg)] @ ticks
         @ [ClearInterval] @ map Unlock locks" and
    o: "snd (run cfg ev f lockKey ttl) =
       bluebird_finally d (release_chain ev lockKey (ttl_of ttl) locks d s)"
    by blast
  have mem: "(Unlock h \<in> set (fst (run cfg ev f lockKey ttl)) \<longleftrightarrow> h \<in> set locks)
             \<and> (Cancel \<in> set (fst (run cfg ev f lockKey ttl)) \<longleftrightarrow> d = Cancelled)" for h
    using run_trace_members [OF a t] .
  from await_deferred_fate [OF sched_init_not_cancelled a]
  have fate: "d \<noteq> Cancelled \<longrightarrow> (\<exists>k r. f = Settles k r \<and> d = task_fate r)" by simp
  show ?thesis
  proof (cases "bluebird_map (\<lambda>l. unit_result (unlock ev l)) locks")
    case (Inl error)
    from bluebird_map_Inl [OF Inl] have "\<exists>h\<in>set locks. unlock ev h \<noteq> None"
      by (auto simp: unit_result_Inl)
    moreover from o release_chain_unlock_fails [OF Inl]
    have "\<exists>u. snd (run cfg ev f lockKey ttl) = Rejected u \<and> name u = ''UnlockError''"
      by (simp add: bluebird_finally_def)
    ultimately show ?thesis using mem by auto
  next
    case (Inr u)
    from bluebird_map_Inr [OF Inr] have ok: "\<forall>h\<in>set locks. unlock ev h = None"
      by (auto simp: unit_result_def split: option.splits)
    show ?thesis
    proof (cases "d = Cancelled")
      case True
      with o release_chain_unlocked [OF Inr]
      have "\<exists>x. snd (run cfg ev f lockKey ttl) = Rejected x \<and> name x = ''ExtendLockError''"
        by (simp add: bluebird_finally_def)
      with True ok mem show ?thesis by auto
    next
      case False
      with o release_chain_unlocked [OF Inr]
      have "snd (run cfg ev f lockKey ttl) = d" by (simp add: bluebird_finally_def)
      with False fate ok mem show ?thesis by auto
    qed
  qed
qed


theorem release_failure_outranks_task_error_and_cancellation_witness:
  "ClearInterval \<in> set (fst (run default_config env_unlock_fails (Settles 0 (Inl task_error))
                                 (JString ''k'') None))
   \<and> (\<exists>h. Unlock h \<in> set (fst (run default_config env_unlock_fails
                                     (Settles 0 (Inl task_error)) (JString ''k'') None))
           \<and> unlock env_unlock_fails h \<noteq> None)
   \<and> (\<exists>u. snd (run default_config env_unlock_fails (Settles 0 (Inl task_error))
                  (JString ''k'') None) = Rejected u \<and> name u = ''UnlockError'')
   \<and> ClearInterval \<in> set (fst (run config_cap2 env_ok Pending (JString ''k'') None))
   \<and> \<not> (\<exists>h. Unlock h \<in> set (fst (run config_cap2 env_ok Pending (JString ''k'') None))
             \<and> unlock env_ok h \<noteq> None)
   \<and> Cancel \<in> set (fst (run config_cap2 env_ok Pending (JString ''k'') None))
   \<and> (\<exists>x. snd (run config_cap2 env_ok Pending (JString ''k'') None) = Rejected x
           \<and> name x = ''ExtendLockError'')
   \<and> ClearInterval \<in> set (fst (run default_config env_ok (Settles 0 (Inl task_error))
                                   (JString ''k'') None))
   \<and> \<not> (\<exists>h. Unlock h \<in> set (fst (run default_config env_ok (Settles 0 (Inl task_error))
                                       (JString ''k'') None))
             \<and> unlock env_ok h \<noteq> None)
   \<and> Cancel \<notin> set (fst (run default_config env_ok (Settles 0 (Inl task_error))
                             (JString ''k'') None))
   \<and> (\<exists>k r. Settles 0 (Inl task_error) = Settles k r
           \<and> snd (run default_config env_ok (Settles 0 (Inl task_error)) (JString ''k'') None)
               = task_fate r)"
proof -
  have a1: "ClearInterval \<in> set (fst (run default_config env_unlock_fails
                                         (Settles 0 (Inl task_error)) (JString ''k'') None))"
    by (simp add: run_task_fails_unlock_fails)
  have a2: "\<exists>h. Unlock h \<in> set (fst (run default_config env_unlock_fails
                                     (Settles 0 (Inl task_error)) (JString ''k'') None))
           \<and> unlock env_unlock_fails h \<noteq> None"
  proof (intro exI [of _ 1] conjI)
    show "Unlock 1 \<in> set (fst (run default_config env_unlock_fails
                                     (Settles 0 (Inl task_error)) (JString ''k'') None))"
      by (simp add: run_task_fails_unlock_fails)
    show "unlock env_unlock_fails 1 \<noteq> None"
      by (simp add: env_unlock_fails_def)
  qed
  have b1: "ClearInterval \<in> set (fst (run config_cap2 env_ok Pending (JString ''k'') None))"
    by (simp add: run_cap2)
  have b2: "\<not> (\<exists>h. Unlock h \<in> set (fst (run config_cap2 env_ok Pending (JString ''k'') None))
             \<and> unlock env_ok h \<noteq> None)"
    by (simp add: env_ok_def)
  have b3: "Cancel \<in> set (fst (run config_cap2 env_ok Pending (JString ''k'') None))"
    by (simp add: run_cap2)
  have c1: "ClearInterval \<in> set (fst (run default_config env_ok (Settles 0 (Inl task_error))
                                   (JString ''k'') None))"
    by (simp add: run_task_fails)
  have c2: "\<not> (\<exists>h. Unlock h \<in> set (fst (run default_config env_ok (Settles 0 (Inl task_error))
                                       (JString ''k'') None))
             \<and> unlock env_ok h \<noteq> None)"
    by (simp add: env_ok_def)
  have c3: "Cancel \<notin> set (fst (run default_config env_ok (Settles 0 (Inl task_error))
                             (JString ''k'') None))"
    by (simp add: run_task_fails)
  from release_failure_outranks_task_error_and_cancellation [OF a1] a2
  have a: "\<exists>u. snd (run default_config env_unlock_fails (Settles 0 (Inl task_error))
                  (JString ''k'') None) = Rejected u \<and> name u = ''UnlockError''"
    by blast
  from release_failure_outranks_task_error_and_cancellation [OF b1] b2 b3
  have b: "\<exists>x. snd (run config_cap2 env_ok Pending (JString ''k'') None) = Rejected x
           \<and> name x = ''ExtendLockError''"
    by blast
  from release_failure_outranks_task_error_and_cancellation [OF c1] c2 c3
  have c: "\<exists>k r. Settles 0 (Inl task_error) = Settles k r
           \<and> snd (run default_config env_ok (Settles 0 (Inl task_error)) (JString ''k'') None)
               = task_fate r"
    by blast
  from a1 a2 a b1 b2 b3 b c1 c2 c3 c show ?thesis by blast
qed

text \<open>
  C1, as stated, fails. When the task is rejected with its own error and the release
  fails too, \<open>run\<close> reports the \<open>UnlockError\<close>, not the task's error; and when the
  scheduler cancelled the task and the release fails, it reports the \<open>UnlockError\<close>, not
  an \<open>ExtendLockError\<close>.
\<close>

theorem unlock_error_reported_despite_task_error_or_cancellation:
  "ClearInterval \<in> set (fst (run default_config env_unlock_fails (Settles 0 (Inl task_error))
                                 (JString ''k'') None))
   \<and> snd (run default_config env_unlock_fails (Settles 0 (Inl task_error)) (JString ''k'') None)
       \<noteq> Rejected task_error
   \<and> map_option name (rejection (snd (run default_config env_unlock_fails
                                        (Settles 0 (Inl task_error)) (JString ''k'') None)))
       = Some ''UnlockError''
   \<and> Cancel \<in> set (fst (run config_cap2 env_unlock_fails Pending (JString ''k'') None))
   \<and> map_option name (rejection (snd (run config_cap2 env_unlock_fails Pending
                                        (JString ''k'') None)))
       = Some ''UnlockError''"
  by (simp add: run_task_fails_unlock_fails run_cap2_unlock_fails) (simp add: task_error_def)

section \<open>The extension cap\<close>

text \<open>
  C2. Every run of the interval callback increments the counter first. A run whose
  incremented count exceeds \<open>maxExtendLockCount\<close> cancels the task and issues no extend
  call. So, for a task that is still running after \<open>maxExtendLockCount\<close> callbacks, with
  extensions that succeed, the invocation performs exactly \<open>maxExtendLockCount\<close> rounds
  of extension, one extend call per handle in each, and then the cancellation.
\<close>

theorem extension_cap_applies_to_tick_attempts:
  assumes "\<not> ttl_of ttl < minimumTtl cfg" and "\<not> malformed_key lockKey"
    and "bluebird_map (\<lambda>key. lock ev (to_string key) (ttl_of ttl)) (keys_of lockKey) = Inr locks"
    and "0 \<le> maxExtendLockCount cfg"
    and "runs_beyond f (maxExtendLockCount cfg)"
    and "\<forall>n h. 1 \<le> n \<and> n \<le> maxExtendLockCount cfg \<and> h \<in> set locks
           \<longrightarrow> extend_h ev n h (ttl_of ttl) = None"
  shows "(\<forall>s. extendLockCounter (snd (tick cfg ev lockKey (ttl_of ttl) locks s))
               = extendLockCounter s + 1)
       \<and> (\<forall>s. extendLockCounter s + 1 > maxExtendLockCount cfg \<longrightarrow>
               fst (tick cfg ev lockKey (ttl_of ttl) locks s) = [Cancel]
               \<and> cancelled (snd (tick cfg ev lockKey (ttl_of ttl) locks s)))
       \<and> fst (run cfg ev f lockKey ttl) =
           map (\<lambda>key. Acquire (to_string key) (ttl_of ttl)) (keys_of lockKey)
             @ [Invoke, SetInterval (ttl_of ttl - extendLockBufferOffset cfg)]
             @ concat (replicate (nat (maxExtendLockCount cfg))
                         (map (\<lambda>l. Extend l (ttl_of ttl)) locks))
             @ [Cancel, ClearInterval] @ map Unlock locks
       \<and> (\<forall>h. count_list (fst (run cfg ev f lockKey ttl)) (Extend h (ttl_of ttl))
               = nat (maxExtendLockCount cfg) * count_list locks h)"
proof -
  have 1: "\<forall>s. extendLockCounter (snd (tick cfg ev lockKey (ttl_of ttl) locks s))
               = extendLockCounter s + 1"
    by (simp add: tick_increments)
  have 2: "\<forall>s. extendLockCounter s + 1 > maxExtendLockCount cfg \<longrightarrow>
               fst (tick cfg ev lockKey (ttl_of ttl) locks s) = [Cancel]
               \<and> cancelled (snd (tick cfg ev lockKey (ttl_of ttl) locks s))"
    by (simp add: tick_cap_exceeded)
  have nt: "\<forall>e. f \<noteq> Throws e" using assms(5) by auto
  have a: "await_deferred cfg ev lockKey (ttl_of ttl) locks f sched_init =
           (concat (replicate (nat (maxExtendLockCount cfg))
                      (map (\<lambda>l. Extend l (ttl_of ttl)) locks)) @ [Cancel],
            Cancelled,
            sched_init\<lparr> extendLockCounter := maxExtendLockCount cfg + 1, cancelled := True,
               errMessage := Some (cap_message cfg lockKey (maxExtendLockCount cfg + 1)) \<rparr>)"
    using assms(4)
    by (intro await_deferred_until_cap [OF assms(5,6)]) (simp_all add: sched_init_def)
  have 3: "fst (run cfg ev f lockKey ttl) =
           map (\<lambda>key. Acquire (to_string key) (ttl_of ttl)) (keys_of lockKey)
             @ [Invoke, SetInterval (ttl_of ttl - extendLockBufferOffset cfg)]
             @ concat (replicate (nat (maxExtendLockCount cfg))
                         (map (\<lambda>l. Extend l (ttl_of ttl)) locks))
             @ [Cancel, ClearInterval] @ map Unlock locks"
    using run_locked [OF assms(1,2,3), of f] with_locks_returns [OF nt a] by simp
  have z1: "count_list (map (\<lambda>key. Acquire (to_string key) (ttl_of ttl)) (keys_of lockKey))
              (Extend h (ttl_of ttl)) = 0" for h
    by (rule count_list_absent) auto
  have z2: "count_list (map Unlock locks) (Extend h (ttl_of ttl)) = 0" for h
    by (rule count_list_absent) auto
  have 4: "\<forall>h. count_list (fst (run cfg ev f lockKey ttl)) (Extend h (ttl_of ttl))
               = nat (maxExtendLockCount cfg) * count_list locks h"
    unfolding 3
    by (simp add: z1 z2 count_list_concat_replicate count_list_map_Extend)
  from 1 2 3 4 show ?thesis by blast
qed


theorem extension_cap_applies_to_tick_attempts_witness:
  "\<not> ttl_of None < minimumTtl config_cap2
   \<and> \<not> malformed_key (JString ''k'')
   \<and> bluebird_map (\<lambda>key. lock env_ok (to_string key) (ttl_of None)) (keys_of (JString ''k''))
       = Inr [1]
   \<and> 0 \<le> maxExtendLockCount config_cap2
   \<and> runs_beyond Pending (maxExtendLockCount config_cap2)
   \<and> fst (tick config_cap2 env_ok (JString ''k'') (ttl_of None) [1]
            (sched_init \<lparr> extendLockCounter := 2 \<rparr>)) = [Cancel]
   \<and> fst (run config_cap2 env_ok Pending (JString ''k'') None) =
       [Acquire ''k'' 1000, Invoke, SetInterval 950, Extend 1 1000, Extend 1 1000, Cancel,
        ClearInterval, Unlock 1]
   \<and> count_list (fst (run config_cap2 env_ok Pending (JString ''k'') None)) (Extend 1 1000) = 2"
proof -
  have a: "\<not> ttl_of None < minimumTtl config_cap2"
    by (simp add: ttl_of_def config_cap2_def default_config_def)
  have b: "\<not> malformed_key (JString ''k'')"
    by (simp add: malformed_key_def)
  have c: "bluebird_map (\<lambda>key. lock env_ok (to_string key) (ttl_of None))
             (keys_of (JString ''k'')) = Inr [1]"
    by (simp add: keys_of_def env_ok_def)
  have d: "0 \<le> maxExtendLockCount config_cap2"
    by (simp add: config_cap2_def default_config_def)
  have e: "runs_beyond Pending (maxExtendLockCount config_cap2)"
    by simp
  have f: "\<forall>n h. 1 \<le> n \<and> n \<le> maxExtendLockCount config_cap2 \<and> h \<in> set [1]
          \<longrightarrow> extend_h env_ok n h (ttl_of None) = None"
    by (simp add: env_ok_def)
  note t = extension_cap_applies_to_tick_attempts [OF a b c d e f]
  note t2 = t [THEN conjunct2, THEN conjunct1, rule_format]
  note t3 = t [THEN conjunct2, THEN conjunct2, THEN conjunct1]
  note t4 = t [THEN conjunct2, THEN conjunct2, THEN conjunct2, rule_format]
  have g: "fst (tick config_cap2 env_ok (JString ''k'') (ttl_of None) [1]
            (sched_init \<lparr> extendLockCounter := 2 \<rparr>)) = [Cancel]"
    using t2 [of "sched_init \<lparr> extendLockCounter := 2 \<rparr>"]
    by (simp add: config_cap2_def default_config_def)
  have h: "fst (run config_cap2 env_ok Pending (JString ''k'') None) =
       [Acquire ''k'' 1000, Invoke, SetInterval 950, Extend 1 1000, Extend 1 1000, Cancel,
        ClearInterval, Unlock 1]"
    using t3 by (simp add: config_cap2_def default_config_def keys_of_def ttl_of_def
                           numeral_2_eq_2)
  have i: "count_list (fst (run config_cap2 env_ok Pending (JString ''k'') None))
             (Extend 1 1000) = 2"
    using t4 [of 1] by (simp add: config_cap2_def default_config_def ttl_of_def)
  from a b c d e g h i show ?thesis by blast
qed

section \<open>Release on every path that reaches the task\<close>

text \<open>
  When the call of the task returns, the release phase is reached and every acquired
  handle gets exactly one unlock call.
\<close>

lemma release_once_when_task_returns:
  assumes "ClearInterval \<in> set (fst (run cfg ev f lockKey ttl))"
  shows "\<exists>locks.
           bluebird_map (\<lambda>key. lock ev (to_string key) (ttl_of ttl)) (keys_of lockKey) = Inr locks
           \<and> (\<forall>h. count_list (fst (run cfg ev f lockKey ttl)) (Unlock h) = count_list locks h)"
proof -
  from run_release_phase [OF disjI1 [OF assms]] obtain locks ticks d s where
    l: "bluebird_map (\<lambda>key. lock ev (to_string key) (ttl_of ttl)) (keys_of lockKey) = Inr locks"
    and a: "await_deferred cfg ev lockKey (ttl_of ttl) locks f sched_init = (ticks, d, s)" and
    t: "fst (run cfg ev f lockKey ttl) =
       map (\<lambda>key. Acquire (to_string key) (ttl_of ttl)) (keys_of lockKey)
         @ [Invoke, SetInterval (ttl_of ttl - extendLockBufferOffset cfg)] @ ticks
         @ [ClearInterval] @ map Unlock locks"
    by blast
  from await_deferred_fate [OF sched_init_not_cancelled a]
  have sub: "set ticks \<subseteq> insert Cancel ((\<lambda>l. Extend l (ttl_of ttl)) ` set locks)" by simp
  have z1: "count_list (map (\<lambda>key. Acquire (to_string key) (ttl_of ttl)) (keys_of lockKey))
              (Unlock h) = 0" for h
    by (rule count_list_absent) auto
  have z2: "count_list ticks (Unlock h) = 0" for h
    using sub by (intro count_list_absent) auto
  have z3: "count_list (map Unlock locks) (Unlock h) = count_list locks h" for h
    by (induction locks) auto
  have "\<forall>h. count_list (fst (run cfg ev f lockKey ttl)) (Unlock h) = count_list locks h"
    unfolding t by (simp add: z1 z2 z3)
  with l show ?thesis by blast
qed

text \<open>
  C4 fails on the code when the task throws as it is called: the lock is acquired, the
  task is called, and \<open>run\<close> is rejected without any release; the handle is still held.
\<close>

theorem thrown_task_error_skips_release:
  "run default_config env_ok (Throws task_error) (JString ''lock-key'') None =
     ([Acquire ''lock-key'' 1000, Invoke], Rejected task_error)
   \<and> acquired env_ok
        (fst (run default_config env_ok (Throws task_error) (JString ''lock-key'') None)) = [8]
   \<and> count_list
        (fst (run default_config env_ok (Throws task_error) (JString ''lock-key'') None))
        (Unlock 8) = 0"
  by (simp add: run_def default_config_def env_ok_def with_locks_def)

section \<open>The fields of the reported errors\<close>

text \<open>
  C7 fails on the code. \<open>run\<close> builds its \<open>ExtendLockError\<close> from the message alone, so
  the \<open>extendLockLimit\<close> of the error is undefined, both when the cap (20 by default) is
  exceeded and when an extension fails.
\<close>

theorem extend_lock_error_has_no_limit:
  "maxExtendLockCount default_config = 20
   \<and> map_option name (rejection
        (snd (run default_config env_ok Pending (JString ''lock-key'') (Some 110))))
       = Some ''ExtendLockError''
   \<and> map_option extendLockLimit (rejection
        (snd (run default_config env_ok Pending (JString ''lock-key'') (Some 110))))
       = Some None
   \<and> map_option name (rejection
        (snd (run default_config env_extend_fails Pending (JString ''lock-key'') None)))
       = Some ''ExtendLockError''
   \<and> map_option extendLockLimit (rejection
        (snd (run default_config env_extend_fails Pending (JString ''lock-key'') None)))
       = Some None"
  by (simp add: run_default_cap run_extend_fails) (simp add: default_config_def)

text \<open>
  C8, as the code has it. When the release phase is reached and a release fails, \<open>run\<close>
  is rejected with an \<open>UnlockError\<close> whose message holds the note that a TTL was set and
  the lock will unlock automatically, followed by the string rendering of the release
  failure; whose stack is the stack of that failure; and whose \<open>extra\<close> field is
  undefined.
\<close>

theorem unlock_error_carries_cause_as_text_and_stack:
  assumes "ClearInterval \<in> set (fst (run cfg ev f lockKey ttl))"
    and "\<exists>h. Unlock h \<in> set (fst (run cfg ev f lockKey ttl)) \<and> unlock ev h \<noteq> None"
  shows "\<exists>h error.
           Unlock h \<in> set (fst (run cfg ev f lockKey ttl)) \<and> unlock ev h = Some error
           \<and> snd (run cfg ev f lockKey ttl) =
               Rejected (JsError ''UnlockError''
                 (Some (''[Mutex '' @ to_string lockKey
                        @ ''] Error when unlocking resource, no worries we'' @ [CHR 0x27]
                        @ ''ve set a TTL '' @ string_of_int (ttl_of ttl) @ '' ms, it''
                        @ [CHR 0x27] @ ''ll unlock automatically. Error ''
                        @ error_to_string error))
                 (stack error) None None)"
proof -
  from run_release_phase [OF disjI1 [OF assms(1)]] obtain locks ticks d s where
    a: "await_deferred cfg ev lockKey (ttl_of ttl) locks f sched_init = (ticks, d, s)" and
    t: "fst (run cfg ev f lockKey ttl) =
       map (\<lambda>key. Acquire (to_string key) (ttl_of ttl)) (keys_of lockKey)
         @ [Invoke, SetInterval (ttl_of ttl - extendLockBufferOffset cfg)] @ ticks
         @ [ClearInterval] @ map Unlock locks" and
    o: "snd (run cfg ev f lockKey ttl) =
       bluebird_finally d (release_chain ev lockKey (ttl_of ttl) locks d s)"
    by blast
  have mem: "Unlock h \<in> set (fst (run cfg ev f lockKey ttl)) \<longleftrightarrow> h \<in> set locks" for h
    using run_trace_members [OF a t] by simp
  from assms(2) mem have "\<exists>h\<in>set locks. isl (unit_result (unlock ev h))"
    by (auto simp: unit_result_isl)
  from bluebird_map_fails [OF this] obtain error where
    e: "bluebird_map (\<lambda>l. unit_result (unlock ev l)) locks = Inl error" by blast
  from bluebird_map_Inl [OF e] obtain h where h: "h \<in> set locks" "unlock ev h = Some error"
    by (auto simp: unit_result_Inl)
  from o release_chain_unlock_fails [OF e]
  have "snd (run cfg ev f lockKey ttl) =
          Rejected (JsError ''UnlockError''
                      (Some (unlock_message lockKey (ttl_of ttl) error)) (stack error) None None)"
    by (simp add: bluebird_finally_def)
  with h mem show ?thesis unfolding unlock_message_def by blast
qed

theorem unlock_error_carries_cause_as_text_and_stack_witness:
  "ClearInterval \<in> set (fst (run default_config env_unlock_fails (Settles 0 (Inr JUndefined))
                                 (JString ''k'') None))
   \<and> (\<exists>h. Unlock h \<in> set (fst (run default_config env_unlock_fails
                                     (Settles 0 (Inr JUndefined)) (JString ''k'') None))
           \<and> unlock env_unlock_fails h \<noteq> None)
   \<and> (\<exists>h error.
           Unlock h \<in> set (fst (run default_config env_unlock_fails
                                   (Settles 0 (Inr JUndefined)) (JString ''k'') None))
           \<and> unlock env_unlock_fails h = Some error
           \<and> snd (run default_config env_unlock_fails (Settles 0 (Inr JUndefined))
                    (JString ''k'') None) =
               Rejected (JsError ''UnlockError''
                 (Some (''[Mutex '' @ to_string (JString ''k'')
                        @ ''] Error when unlocking resource, no worries we'' @ [CHR 0x27]
                        @ ''ve set a TTL '' @ string_of_int (ttl_of None) @ '' ms, it''
                        @ [CHR 0x27] @ ''ll unlock automatically. Error ''
                        @ error_to_string error))
                 (stack error) None None))"
proof -
  have a: "ClearInterval \<in> set (fst (run default_config env_unlock_fails
                                        (Settles 0 (Inr JUndefined)) (JString ''k'') None))"
    by (simp add: run_task_ok_unlock_fails)
  have b: "\<exists>h. Unlock h \<in> set (fst (run default_config env_unlock_fails
                                     (Settles 0 (Inr JUndefined)) (JString ''k'') None))
           \<and> unlock env_unlock_fails h \<noteq> None"
  proof (intro exI [of _ 1] conjI)
    show "Unlock 1 \<in> set (fst (run default_config env_unlock_fails
                                     (Settles 0 (Inr JUndefined)) (JString ''k'') None))"
      by (simp add: run_task_ok_unlock_fails)
    show "unlock env_unlock_fails 1 \<noteq> None"
      by (simp add: env_unlock_fails_def)
  qed
  from a b unlock_error_carries_cause_as_text_and_stack [OF a b] show ?thesis by blast
qed

text \<open>
  C8, as stated, fails: the task succeeds, the release fails, and the reported
  \<open>UnlockError\<close> has no structured cause: its \<open>extra\<close> field is undefined.
\<close>

theorem unlock_error_has_no_structured_cause:
  "unlock env_unlock_fails 1 = Some unlock_failure
   \<and> map_option name (rejection
        (snd (run default_config env_unlock_fails (Settles 0 (Inr JUndefined))
               (JString ''k'') None)))
       = Some ''UnlockError''
   \<and> map_option extra (rejection
        (snd (run default_config env_unlock_fails (Settles 0 (Inr JUndefined))
               (JString ''k'') None)))
       = Some None"
  by (simp add: run_task_ok_unlock_fails) (simp add: env_unlock_fails_def)

end
